theory Spec2Isabelle
  imports Main "HOL-Library.AList" "HOL-Library.Char_ord" "HOL-Library.List_Lexorder"
    "HOL-Library.Multiset"
begin

section \<open>The virtual file system of PyOS\<close>

text \<open>
  \<^verbatim>\<open>src/PyOS.py\<close> keeps its file system as nested dicts. A node is either
  \<^verbatim>\<open>{"type": "dir", "children": {name: node, ...}}\<close> or
  \<^verbatim>\<open>{"type": "file", "content": text}\<close>. The children dict is an association list
  here: Python dicts keep insertion order, \<^verbatim>\<open>d[k] = v\<close> replaces the value of an
  existing key in place and appends a new key (\<open>AList.update\<close>), \<^verbatim>\<open>del d[k]\<close>
  removes the key (\<open>AList.delete\<close>), \<^verbatim>\<open>k in d\<close> and \<^verbatim>\<open>d[k]\<close> are
  \<open>map_of\<close>.

  A directory dict carries nothing but its children, so a variable that the code only ever binds
  to a directory (\<^verbatim>\<open>self.file_system\<close>, the loop variable \<^verbatim>\<open>node\<close> of
  \<^verbatim>\<open>_get_node_from_path\<close>, \<^verbatim>\<open>current_node\<close> in the handlers) is modelled by
  the children mapping itself; \<open>Dir c\<close> is the same directory seen as an entry of its parent.
\<close>

datatype node = Dir "(string \<times> node) list" | File string

type_synonym directory = "(string \<times> node) list"

record pyos =
  user :: string
  hostname :: string
  file_system :: directory
  current_path :: "string list"

text \<open>\<^verbatim>\<open>PyOS.__init__\<close>: the seed layout and the start in the user's home directory.\<close>

definition init :: "string \<Rightarrow> pyos" where
  "init usr =
     \<lparr>user = usr,
      hostname = ''pyos-main'',
      file_system =
        [(''home'', Dir [(usr, Dir [(''welcome.txt'',
            File ''Welcome to PyOS! Type 'help' to see available commands.'')])]),
         (''etc'', Dir [(''os-release'', File ''PyOS Version 1.0 (Simulated)'')])],
      current_path = [''home'', usr]\<rparr>"

text \<open>
  \<^verbatim>\<open>_get_node_from_path\<close>: the \<^verbatim>\<open>for part in path_list\<close> loop, with the loop
  variable \<^verbatim>\<open>node\<close> as first argument. A part that is no key of the children, or whose
  entry has type \<^verbatim>\<open>"file"\<close>, makes the function return \<^verbatim>\<open>None\<close> at once.
\<close>

fun get_node_from_path :: "directory \<Rightarrow> string list \<Rightarrow> directory option" where
  "get_node_from_path node [] = Some node"
| "get_node_from_path node (part # rest) =
     (case map_of node part of
        Some (Dir children) \<Rightarrow> get_node_from_path children rest
      | _ \<Rightarrow> None)"

definition get_current_node :: "pyos \<Rightarrow> directory option" where
  "get_current_node s = get_node_from_path (file_system s) (current_path s)"

text \<open>
  The handlers mutate the dict that \<^verbatim>\<open>_get_current_node\<close> returned, which is a
  reference into the tree. With the tree as a value, the mutation \<open>f\<close> is written back along
  the path that led to the node. The handlers call it only after the path has resolved.
\<close>

fun modify_at :: "string list \<Rightarrow> (directory \<Rightarrow> directory) \<Rightarrow> directory \<Rightarrow> directory" where
  "modify_at [] f node = f node"
| "modify_at (part # rest) f node =
     (case map_of node part of
        Some (Dir children) \<Rightarrow> AList.update part (Dir (modify_at rest f children)) node
      | _ \<Rightarrow> node)"

definition set_current_children :: "(directory \<Rightarrow> directory) \<Rightarrow> pyos \<Rightarrow> pyos" where
  "set_current_children f s = s\<lparr>file_system := modify_at (current_path s) f (file_system s)\<rparr>"

subsection \<open>Path resolution as the specification words it\<close>

text \<open>
  The specification's \<^verbatim>\<open>resolveDirectory\<close>: walk from the root, following each segment
  into the directory of that name. \<open>walk root path d\<close> holds when that walk exists and ends
  in \<open>d\<close>.
\<close>

inductive walk :: "directory \<Rightarrow> string list \<Rightarrow> directory \<Rightarrow> bool" where
  walk_here: "walk d [] d"
| walk_down: "map_of d seg = Some (Dir c) \<Longrightarrow> walk c segs r \<Longrightarrow> walk d (seg # segs) r"

inductive_simps walk_Nil: "walk d [] r"
inductive_simps walk_Cons: "walk d (seg # segs) r"


section \<open>Standard output, exceptions and string helpers\<close>

text \<open>
  Standard output is the text written so far. \<^verbatim>\<open>print(x)\<close> writes \<open>x\<close> and a
  newline; \<^verbatim>\<open>print(x, end="  ")\<close> writes \<open>x\<close> and two spaces.
\<close>

definition print_line :: "string \<Rightarrow> string" where
  "print_line x = x @ [CHR 0x0A]"

text \<open>The single quote of the messages.\<close>

definition sq :: string where
  "sq = [CHR 0x27]"

text \<open>
  The exceptions a handler can let escape. Every handler subscripts
  \<^verbatim>\<open>current_node["children"]\<close> without testing \<^verbatim>\<open>current_node\<close>, which is a
  \<^verbatim>\<open>TypeError\<close> when \<^verbatim>\<open>_get_current_node\<close> returned \<^verbatim>\<open>None\<close>.
  \<^verbatim>\<open>KeyError\<close> is what \<^verbatim>\<open>d[k]\<close> raises for a missing key. \<open>str_exn\<close> is
  \<^verbatim>\<open>str(e)\<close>; for a \<^verbatim>\<open>KeyError\<close> that is the \<^verbatim>\<open>repr\<close> of the key,
  written here for a key without quotes, backslashes or control characters (the only
  \<^verbatim>\<open>KeyError\<close> of the model, in \<open>ls_loop\<close>, is never raised for a key of the
  dict: lemma \<open>ls_loop_keys\<close>).
\<close>

datatype exn = TypeError | KeyError string

fun str_exn :: "exn \<Rightarrow> string" where
  "str_exn TypeError = sq @ ''NoneType'' @ sq @ '' object is not subscriptable''"
| "str_exn (KeyError k) = sq @ k @ sq"

text \<open>
  How a handler ends: it returns, an \<^verbatim>\<open>Exception\<close> escapes it, or
  \<^verbatim>\<open>sys.exit\<close> raises \<^verbatim>\<open>SystemExit\<close>, which is no \<^verbatim>\<open>Exception\<close>.
  A handler yields the state and the output at that point together with the outcome.
\<close>

datatype outcome = Return | Raise exn | SystemExit

type_synonym handler = "string list \<Rightarrow> pyos \<Rightarrow> pyos \<times> string \<times> outcome"

text \<open>\<^verbatim>\<open>sep.join(xs)\<close>.\<close>

fun join :: "string \<Rightarrow> string list \<Rightarrow> string" where
  "join sep [] = []"
| "join sep [x] = x"
| "join sep (x # y # zs) = x @ sep @ join sep (y # zs)"

text \<open>\<^verbatim>\<open>xs.index(x)\<close>: the first position of \<open>x\<close>; \<open>None\<close> is the \<^verbatim>\<open>ValueError\<close>.\<close>

fun index_of :: "'a \<Rightarrow> 'a list \<Rightarrow> nat option" where
  "index_of x [] = None"
| "index_of x (y # ys) = (if y = x then Some 0 else map_option Suc (index_of x ys))"

text \<open>
  \<^verbatim>\<open>str.isspace\<close> on one character, for the code points below 256 that a \<open>char\<close>
  holds: tab, line feed, vertical tab, form feed, carriage return, the four separators
  \<^verbatim>\<open>0x1c\<close> to \<^verbatim>\<open>0x1f\<close>, space, \<^verbatim>\<open>0x85\<close> and \<^verbatim>\<open>0xa0\<close>.
\<close>

definition isspace :: "char \<Rightarrow> bool" where
  "isspace c = ((of_char c :: nat) \<in> {9, 10, 11, 12, 13, 28, 29, 30, 31, 32, 133, 160})"

text \<open>\<^verbatim>\<open>s.strip()\<close> and \<^verbatim>\<open>s.split()\<close> with no argument.\<close>

definition strip :: "string \<Rightarrow> string" where
  "strip s = rev (dropWhile isspace (rev (dropWhile isspace s)))"

fun split_from :: "string \<Rightarrow> string \<Rightarrow> string list" where
  "split_from word [] = (if word = [] then [] else [word])"
| "split_from word (c # cs) =
     (if isspace c then (if word = [] then split_from [] cs else word # split_from [] cs)
      else split_from (word @ [c]) cs)"

definition split :: "string \<Rightarrow> string list" where
  "split s = split_from [] s"

section \<open>The command handlers\<close>

text \<open>
  The handlers \<^verbatim>\<open>_help\<close>, \<^verbatim>\<open>_ls\<close>, ... of the source are \<open>help_cmd\<close>,
  \<open>ls_cmd\<close>, ... here (an Isabelle name cannot start with an underscore).
\<close>

definition path_str :: "pyos \<Rightarrow> string" where
  "path_str s = (if current_path s \<noteq> [] then ''/'' @ join ''/'' (current_path s) else ''/'')"

definition get_prompt :: "pyos \<Rightarrow> string" where
  "get_prompt s = user s @ ''@'' @ hostname s @ '':'' @ path_str s @ ''$ ''"

definition help_cmd :: handler where
  "help_cmd args s =
     (s,
      print_line ''PyOS Command List:'' @
      print_line ''  help          - Shows this help message.'' @
      print_line ''  ls [path]     - Lists contents of a directory.'' @
      print_line (''  cd <path>     - Changes the current directory. Use '' @ sq @ ''..'' @ sq @
        '' for parent, '' @ sq @ ''/'' @ sq @ '' for root.'') @
      print_line ''  mkdir <name>  - Creates a new directory.'' @
      print_line ''  cat <file>    - Displays the content of a file.'' @
      print_line ''  echo <text> > <file> - Writes text to a file, creating it if necessary.'' @
      print_line ''  rm <name>     - Removes a file or an empty directory.'' @
      print_line ''  pwd           - Prints the current working directory path.'' @
      print_line ''  date          - Displays the current date and time.'' @
      print_line ''  exit          - Exits the PyOS session.'',
      Return)"

text \<open>
  \<^verbatim>\<open>_ls\<close>. \<open>ls_loop\<close> is the loop over \<^verbatim>\<open>sorted(contents)\<close>: it looks each
  name up in the children and prints it, followed by a slash for a directory, with two spaces
  after it. \<^verbatim>\<open>args\<close> is never read.
\<close>

fun ls_loop :: "directory \<Rightarrow> string list \<Rightarrow> string \<times> outcome" where
  "ls_loop children [] = ([], Return)"
| "ls_loop children (name # names) =
     (case map_of children name of
        None \<Rightarrow> ([], Raise (KeyError name))
      | Some item \<Rightarrow>
          (let display_name = (case item of Dir _ \<Rightarrow> name @ ''/'' | File _ \<Rightarrow> name);
               (out, r) = ls_loop children names
           in (display_name @ ''  '' @ out, r)))"

definition ls_cmd :: handler where
  "ls_cmd args s =
     (case get_current_node s of
        None \<Rightarrow> (s, [], Raise TypeError)
      | Some node \<Rightarrow>
          (let contents = map fst node in
           if contents = [] then (s, [], Return)
           else (case ls_loop node (sort contents) of
                   (out, Return) \<Rightarrow> (s, print_line out, Return)
                 | (out, r) \<Rightarrow> (s, out, r))))"

definition cd_cmd :: handler where
  "cd_cmd args s =
     (case args of
        [] \<Rightarrow> (s\<lparr>current_path := [''home'', user s]\<rparr>, [], Return)
      | path # _ \<Rightarrow>
          if path = ''/'' then (s\<lparr>current_path := []\<rparr>, [], Return)
          else if path = ''..'' then
            ((if current_path s \<noteq> [] then s\<lparr>current_path := butlast (current_path s)\<rparr> else s),
             [], Return)
          else
            (case get_current_node s of
               None \<Rightarrow> (s, [], Raise TypeError)
             | Some current_node \<Rightarrow>
                 (case map_of current_node path of
                    Some (Dir _) \<Rightarrow> (s\<lparr>current_path := current_path s @ [path]\<rparr>, [], Return)
                  | _ \<Rightarrow> (s, print_line (''cd: no such directory: '' @ path), Return))))"

definition mkdir_cmd :: handler where
  "mkdir_cmd args s =
     (case args of
        [] \<Rightarrow> (s, print_line ''mkdir: missing operand'', Return)
      | dir_name # _ \<Rightarrow>
          (case get_current_node s of
             None \<Rightarrow> (s, [], Raise TypeError)
           | Some current_node \<Rightarrow>
               (case map_of current_node dir_name of
                  Some _ \<Rightarrow>
                    (s, print_line (''mkdir: cannot create directory '' @ sq @ dir_name @ sq @
                          '': File exists''), Return)
                | None \<Rightarrow> (set_current_children (AList.update dir_name (Dir [])) s, [], Return))))"

definition cat_cmd :: handler where
  "cat_cmd args s =
     (case args of
        [] \<Rightarrow> (s, print_line ''cat: missing operand'', Return)
      | file_name # _ \<Rightarrow>
          (case get_current_node s of
             None \<Rightarrow> (s, [], Raise TypeError)
           | Some current_node \<Rightarrow>
               (case map_of current_node file_name of
                  Some (File content) \<Rightarrow> (s, print_line content, Return)
                | _ \<Rightarrow>
                    (s, print_line (''cat: '' @ file_name @ '': No such file or it is a directory''),
                     Return))))"

text \<open>
  \<^verbatim>\<open>_echo\<close>. \<^verbatim>\<open>args.index(">")\<close> raises \<^verbatim>\<open>ValueError\<close> when no token is
  \<^verbatim>\<open>>\<close>, \<^verbatim>\<open>args[redirect_index + 1]\<close> raises \<^verbatim>\<open>IndexError\<close> when no token
  follows it; both are caught and print the usage line. The \<^verbatim>\<open>TypeError\<close> of a
  missing current node is not among the caught exceptions and escapes.
\<close>

definition echo_cmd :: handler where
  "echo_cmd args s =
     (case index_of ''>'' args of
        None \<Rightarrow> (s, print_line ''Usage: echo <text> > <filename>'', Return)
      | Some redirect_index \<Rightarrow>
          if redirect_index + 1 < length args then
            (let file_name = args ! (redirect_index + 1);
                 content_list = take redirect_index args;
                 content = join '' '' content_list
             in case get_current_node s of
                  None \<Rightarrow> (s, [], Raise TypeError)
                | Some current_node \<Rightarrow>
                    (set_current_children (AList.update file_name (File content)) s, [], Return))
          else (s, print_line ''Usage: echo <text> > <filename>'', Return))"

definition rm_cmd :: handler where
  "rm_cmd args s =
     (case args of
        [] \<Rightarrow> (s, print_line ''rm: missing operand'', Return)
      | name # _ \<Rightarrow>
          (case get_current_node s of
             None \<Rightarrow> (s, [], Raise TypeError)
           | Some current_node \<Rightarrow>
               (case map_of current_node name of
                  None \<Rightarrow>
                    (s, print_line (''rm: cannot remove '' @ sq @ name @ sq @
                          '': No such file or directory''), Return)
                | Some item_to_remove \<Rightarrow>
                    if (case item_to_remove of Dir children \<Rightarrow> children \<noteq> [] | File _ \<Rightarrow> False)
                    then (s, print_line (''rm: failed to remove '' @ sq @ name @ sq @
                          '': Directory not empty''), Return)
                    else (set_current_children (AList.delete name) s, [], Return))))"

definition pwd_cmd :: handler where
  "pwd_cmd args s = (s, print_line (path_str s), Return)"

text \<open>
  \<^verbatim>\<open>_date\<close> prints the formatted local time; the clock is outside the program, so the
  formatted text \<open>now\<close> is a parameter.
\<close>

definition date_cmd :: "string \<Rightarrow> handler" where
  "date_cmd now args s = (s, print_line now, Return)"

definition exit_cmd :: handler where
  "exit_cmd args s = (s, print_line ''Shutting down PyOS...'', SystemExit)"

definition get_commands :: "string \<Rightarrow> string \<rightharpoonup> handler" where
  "get_commands now =
     [''help'' \<mapsto> help_cmd, ''ls'' \<mapsto> ls_cmd, ''cd'' \<mapsto> cd_cmd, ''mkdir'' \<mapsto> mkdir_cmd,
      ''cat'' \<mapsto> cat_cmd, ''echo'' \<mapsto> echo_cmd, ''rm'' \<mapsto> rm_cmd, ''pwd'' \<mapsto> pwd_cmd,
      ''date'' \<mapsto> date_cmd now, ''exit'' \<mapsto> exit_cmd]"

section \<open>The session loop\<close>

datatype status = Running | Terminated

text \<open>
  The dispatch at the end of the loop body of \<^verbatim>\<open>run\<close>: a known verb runs its handler
  inside \<^verbatim>\<open>try ... except Exception\<close>, an unknown one is reported. The table of
  handlers is a parameter, as \<^verbatim>\<open>self.commands\<close> is an attribute.
\<close>

definition dispatch ::
  "(string \<rightharpoonup> handler) \<Rightarrow> string \<Rightarrow> string list \<Rightarrow> pyos \<Rightarrow> pyos \<times> string \<times> status" where
  "dispatch commands command args s =
     (case commands command of
        Some h \<Rightarrow>
          (case h args s of
             (s', out, Return) \<Rightarrow> (s', out, Running)
           | (s', out, Raise e) \<Rightarrow>
               (s', out @ print_line (''An error occurred executing '' @ sq @ command @ sq @
                  '': '' @ str_exn e), Running)
           | (s', out, SystemExit) \<Rightarrow> (s', out, Terminated))
      | None \<Rightarrow> (s, print_line (command @ '': command not found''), Running))"

text \<open>
  What \<^verbatim>\<open>input(prompt)\<close> gives: a line, or \<^verbatim>\<open>EOFError\<close> or
  \<^verbatim>\<open>KeyboardInterrupt\<close>.
\<close>

datatype input = Line string | EndOfInput

text \<open>
  One turn of the \<^verbatim>\<open>while True\<close> loop. \<^verbatim>\<open>parts[0]\<close> on an empty
  \<^verbatim>\<open>parts\<close> would be an \<^verbatim>\<open>IndexError\<close> outside every \<^verbatim>\<open>try\<close>, ending
  the process; lemma \<open>split_not_Nil\<close> shows that the test on \<^verbatim>\<open>strip\<close> excludes it.
\<close>

definition loop_body :: "string \<Rightarrow> input \<Rightarrow> pyos \<Rightarrow> pyos \<times> string \<times> status" where
  "loop_body now inp s =
     (let prompt = get_prompt s in
      case inp of
        EndOfInput \<Rightarrow> (s, prompt @ print_line (CHR 0x0A # ''Exiting.''), Terminated)
      | Line user_input \<Rightarrow>
          if strip user_input = [] then (s, prompt, Running)
          else
            (case split user_input of
               [] \<Rightarrow> (s, prompt, Terminated)
             | command # args \<Rightarrow>
                 (case dispatch (get_commands now) command args s of
                    (s', out, st) \<Rightarrow> (s', prompt @ out, st))))"

text \<open>
  The loop over the inputs that arrive, each with the clock text of its turn. When they are
  used up the session has printed its prompt and waits, still running.
\<close>

fun run_loop :: "(string \<times> input) list \<Rightarrow> pyos \<Rightarrow> pyos \<times> string \<times> status" where
  "run_loop [] s = (s, get_prompt s, Running)"
| "run_loop ((now, inp) # rest) s =
     (case loop_body now inp s of
        (s', out, Running) \<Rightarrow> (case run_loop rest s' of (s'', out', st) \<Rightarrow> (s'', out @ out', st))
      | (s', out, Terminated) \<Rightarrow> (s', out, Terminated))"

definition run :: "(string \<times> input) list \<Rightarrow> pyos \<Rightarrow> pyos \<times> string \<times> status" where
  "run inputs s =
     (case run_loop inputs s of
        (s', out, st) \<Rightarrow>
          (s', print_line ''PyOS [Version 1.0]'' @
               print_line ''(c) Simulated Corporation. All rights reserved.'' @
               print_line [] @ out, st))"

section \<open>Well-formed trees and a sample session\<close>

text \<open>
  A Python dict holds a key once; an association list stands for a dict when its keys are
  distinct. \<open>unique_names\<close> says so for a node and everything below it.
\<close>

fun unique_names :: "node \<Rightarrow> bool" where
  "unique_names (File content) = True"
| "unique_names (Dir children) =
     (distinct (map fst children) \<and> (\<forall>entry \<in> set children. unique_names (snd entry)))"

declare unique_names.simps(2) [simp del]

text \<open>
  A session of user \<^verbatim>\<open>user\<close> that empties its home directory, removes it from
  \<^verbatim>\<open>/home\<close> and then goes home with \<^verbatim>\<open>cd\<close>; \<open>dangling\<close> is the
  state it reaches (lemma \<open>home_removed_reaches\<close>).
\<close>

definition home_removed :: "(string \<times> input) list" where
  "home_removed =
     [(''t1'', Line ''rm welcome.txt''), (''t2'', Line ''cd ..''), (''t3'', Line ''rm user''),
      (''t4'', Line ''cd'')]"

definition dangling :: pyos where
  "dangling =
     \<lparr>user = ''user'', hostname = ''pyos-main'',
      file_system =
        [(''home'', Dir []),
         (''etc'', Dir [(''os-release'', File ''PyOS Version 1.0 (Simulated)'')])],
      current_path = [''home'', ''user'']\<rparr>"

section \<open>Path resolution\<close>

lemma get_node_from_path_walk:
  "get_node_from_path root path = Some d \<longleftrightarrow> walk root path d"
proof (induction path arbitrary: root)
  case Nil
  show ?case by (auto simp: walk_Nil)
next
  case (Cons seg segs)
  show ?case
  proof (cases "map_of root seg")
    case None
    then show ?thesis by (simp add: walk_Cons)
  next
    case (Some n)
    then show ?thesis using Cons.IH by (cases n) (simp_all add: walk_Cons)
  qed
qed

lemma get_node_from_path_append:
  "get_node_from_path root (xs @ ys) =
     (case get_node_from_path root xs of None \<Rightarrow> None | Some n \<Rightarrow> get_node_from_path n ys)"
  by (induction xs arbitrary: root) (auto split: option.splits node.splits)

lemma get_node_from_path_None_split:
  "get_node_from_path root path = None \<Longrightarrow>
     \<exists>pre seg post n. path = pre @ seg # post \<and> get_node_from_path root pre = Some n \<and>
        (map_of n seg = None \<or> (\<exists>content. map_of n seg = Some (File content)))"
proof (induction path arbitrary: root)
  case Nil
  then show ?case by simp
next
  case (Cons p ps)
  show ?case
  proof (cases "map_of root p")
    case None
    then have "p # ps = [] @ p # ps \<and> get_node_from_path root [] = Some root \<and>
        (map_of root p = None \<or> (\<exists>content. map_of root p = Some (File content)))"
      by simp
    then show ?thesis by blast
  next
    case (Some n)
    show ?thesis
    proof (cases n)
      case (File content)
      with Some have "p # ps = [] @ p # ps \<and> get_node_from_path root [] = Some root \<and>
          (map_of root p = None \<or> (\<exists>content. map_of root p = Some (File content)))"
        by simp
      then show ?thesis by blast
    next
      case (Dir c)
      with Some Cons.prems have "get_node_from_path c ps = None" by simp
      from Cons.IH [OF this] obtain pre seg post m where
        split: "ps = pre @ seg # post" and pre: "get_node_from_path c pre = Some m" and
        bad: "map_of m seg = None \<or> (\<exists>content. map_of m seg = Some (File content))"
        by blast
      from Some Dir pre have "get_node_from_path root (p # pre) = Some m" by simp
      with split bad have "p # ps = (p # pre) @ seg # post \<and>
          get_node_from_path root (p # pre) = Some m \<and>
          (map_of m seg = None \<or> (\<exists>content. map_of m seg = Some (File content)))"
        by simp
      then show ?thesis by blast
    qed
  qed
qed

text \<open>
  C1. Resolving a sequence of path segments walks from the root following each segment and
  returns the directory reached; it returns \<^verbatim>\<open>None\<close> exactly when some segment is
  absent among the children of the directory reached so far or names a file there; the empty
  sequence returns the root.
\<close>

theorem get_node_from_path_resolves:
  "(get_node_from_path root path = Some d \<longleftrightarrow> walk root path d) \<and>
   (get_node_from_path root path = None \<longleftrightarrow>
      (\<exists>pre seg post n. path = pre @ seg # post \<and> walk root pre n \<and>
         (map_of n seg = None \<or> (\<exists>content. map_of n seg = Some (File content))))) \<and>
   get_node_from_path root [] = Some root"
proof (intro conjI)
  show "get_node_from_path root path = Some d \<longleftrightarrow> walk root path d"
    by (rule get_node_from_path_walk)
next
  show "get_node_from_path root path = None \<longleftrightarrow>
      (\<exists>pre seg post n. path = pre @ seg # post \<and> walk root pre n \<and>
         (map_of n seg = None \<or> (\<exists>content. map_of n seg = Some (File content))))"
  proof
    assume "get_node_from_path root path = None"
    from get_node_from_path_None_split [OF this] show
      "\<exists>pre seg post n. path = pre @ seg # post \<and> walk root pre n \<and>
         (map_of n seg = None \<or> (\<exists>content. map_of n seg = Some (File content)))"
      by (simp only: get_node_from_path_walk)
  next
    assume "\<exists>pre seg post n. path = pre @ seg # post \<and> walk root pre n \<and>
         (map_of n seg = None \<or> (\<exists>content. map_of n seg = Some (File content)))"
    then obtain pre seg post n where
      split: "path = pre @ seg # post" and pre: "get_node_from_path root pre = Some n" and
      bad: "map_of n seg = None \<or> (\<exists>content. map_of n seg = Some (File content))"
      by (auto simp: get_node_from_path_walk)
    from bad have "get_node_from_path n (seg # post) = None" by auto
    with split pre show "get_node_from_path root path = None"
      by (simp add: get_node_from_path_append)
  qed
next
  show "get_node_from_path root [] = Some root" by simp
qed

theorem get_node_from_path_resolves_witness:
  "walk (file_system (init ''user'')) [''home'', ''user'']
     [(''welcome.txt'', File ''Welcome to PyOS! Type 'help' to see available commands.'')] \<and>
   get_node_from_path (file_system (init ''user'')) [''etc'', ''os-release'', ''x''] = None \<and>
   get_node_from_path (file_system (init ''user'')) [] = Some (file_system (init ''user''))"
  using get_node_from_path_resolves [of "file_system (init ''user'')" "[''home'', ''user'']"
      "[(''welcome.txt'', File ''Welcome to PyOS! Type 'help' to see available commands.'')]"]
  by (simp add: init_def)

section \<open>Facts about the helpers\<close>

lemma get_node_from_path_modify_at:
  "get_node_from_path root path = Some ch \<Longrightarrow>
     get_node_from_path (modify_at path f root) path = Some (f ch)"
proof (induction path arbitrary: root)
  case Nil
  then show ?case by simp
next
  case (Cons p ps)
  from Cons.prems obtain c where c: "map_of root p = Some (Dir c)" and
    rest: "get_node_from_path c ps = Some ch"
    by (auto split: option.splits node.splits)
  from Cons.IH [OF rest] c show ?case
    by (simp add: update_conv')
qed

lemma index_of_append: "x \<notin> set ts \<Longrightarrow> index_of x (ts @ x # rest) = Some (length ts)"
  by (induction ts) auto

lemma split_from_not_Nil:
  "word \<noteq> [] \<or> (\<exists>c \<in> set s. \<not> isspace c) \<Longrightarrow> split_from word s \<noteq> []"
proof (induction s arbitrary: word)
  case Nil
  then show ?case by simp
next
  case (Cons c cs)
  show ?case
  proof (cases "isspace c")
    case True
    then show ?thesis using Cons.IH [of "[]"] Cons.prems by auto
  next
    case False
    then show ?thesis using Cons.IH [of "word @ [c]"] by simp
  qed
qed

lemma strip_not_Nil: "strip s \<noteq> [] \<Longrightarrow> \<exists>c \<in> set s. \<not> isspace c"
proof (rule ccontr)
  assume ne: "strip s \<noteq> []" and "\<not> (\<exists>c \<in> set s. \<not> isspace c)"
  then have "\<forall>c \<in> set s. isspace c" by blast
  then have d: "dropWhile isspace s = []" by simp
  have "strip s = []" unfolding strip_def d by simp
  with ne show False by simp
qed

lemma split_not_Nil: "strip s \<noteq> [] \<Longrightarrow> split s \<noteq> []"
  unfolding split_def using split_from_not_Nil [of "[]" s] strip_not_Nil [of s] by blast


lemma ls_loop_keys:
  "set names \<subseteq> fst ` set children \<Longrightarrow>
     ls_loop children names =
       (concat (map (\<lambda>n. (case map_of children n of Some (Dir _) \<Rightarrow> n @ ''/'' | _ \<Rightarrow> n) @ ''  '') names),
        Return)"
proof (induction names)
  case Nil
  show ?case by simp
next
  case (Cons n ns)
  then have "n \<in> fst ` set children" by simp
  then obtain item where item: "map_of children n = Some item"
    by (metis map_of_eq_None_iff not_Some_eq)
  from Cons have "ls_loop children ns =
       (concat (map (\<lambda>n. (case map_of children n of Some (Dir _) \<Rightarrow> n @ ''/'' | _ \<Rightarrow> n) @ ''  '') ns),
        Return)" by simp
  with item show ?case by (cases item) simp_all
qed

lemma get_current_node_set_current_children:
  "get_current_node s = Some ch \<Longrightarrow> get_current_node (set_current_children f s) = Some (f ch)"
  by (simp add: get_current_node_def set_current_children_def get_node_from_path_modify_at)

section \<open>Changing directory\<close>

text \<open>
  C6. \<^verbatim>\<open>cd ..\<close> pops exactly one segment when the current path is not empty; at the
  root it changes nothing, prints nothing and raises nothing. This holds in every state, so in
  every state that a sequence of \<^verbatim>\<open>cd\<close> commands reaches.
\<close>

theorem cd_dotdot_pops:
  "(current_path s \<noteq> [] \<longrightarrow>
      cd_cmd (''..'' # rest) s = (s\<lparr>current_path := butlast (current_path s)\<rparr>, [], Return) \<and>
      Suc (length (butlast (current_path s))) = length (current_path s)) \<and>
   (current_path s = [] \<longrightarrow> cd_cmd (''..'' # rest) s = (s, [], Return))"
  by (simp add: cd_cmd_def)

theorem cd_dotdot_pops_witness:
  "cd_cmd [''..''] (init ''user'') = ((init ''user'')\<lparr>current_path := [''home'']\<rparr>, [], Return) \<and>
   cd_cmd [''..''] ((init ''user'')\<lparr>current_path := []\<rparr>) =
     ((init ''user'')\<lparr>current_path := []\<rparr>, [], Return)"
  using cd_dotdot_pops [of "init ''user''" "[]"]
    cd_dotdot_pops [of "(init ''user'')\<lparr>current_path := []\<rparr>" "[]"]
  by (simp add: init_def)

section \<open>Removing\<close>

lemma print_line_not_Nil: "print_line x \<noteq> []"
  by (simp add: print_line_def)

text \<open>
  What \<^verbatim>\<open>rm\<close> does in a state whose current path resolves to a directory:
  \<^verbatim>\<open>rm x\<close> on a child directory that has a child of its own prints the
  directory-not-empty message and leaves the whole state as it was; on an absent name it prints
  the not-found message and leaves the state as it was; on a file or an empty directory it
  deletes the entry from the current directory and prints nothing; and it prints nothing exactly
  in that last case.
\<close>

lemma rm_cmd_cases:
  assumes "get_current_node s = Some current_node"
  shows
    "(\<forall>children. map_of current_node x = Some (Dir children) \<and> children \<noteq> [] \<longrightarrow>
        rm_cmd (x # rest) s =
          (s, print_line (''rm: failed to remove '' @ sq @ x @ sq @ '': Directory not empty''),
           Return)) \<and>
     (map_of current_node x = None \<longrightarrow>
        rm_cmd (x # rest) s =
          (s, print_line (''rm: cannot remove '' @ sq @ x @ sq @ '': No such file or directory''),
           Return)) \<and>
     (map_of current_node x = Some (Dir []) \<or> (\<exists>content. map_of current_node x = Some (File content)) \<longrightarrow>
        rm_cmd (x # rest) s = (set_current_children (AList.delete x) s, [], Return) \<and>
        get_current_node (set_current_children (AList.delete x) s) =
          Some (AList.delete x current_node) \<and>
        map_of (AList.delete x current_node) x = None) \<and>
     (fst (snd (rm_cmd (x # rest) s)) = [] \<longleftrightarrow>
        map_of current_node x = Some (Dir []) \<or> (\<exists>content. map_of current_node x = Some (File content)))"
proof (intro conjI allI impI)
  fix children
  assume "map_of current_node x = Some (Dir children) \<and> children \<noteq> []"
  with assms show "rm_cmd (x # rest) s =
      (s, print_line (''rm: failed to remove '' @ sq @ x @ sq @ '': Directory not empty''), Return)"
    by (simp add: rm_cmd_def)
next
  assume "map_of current_node x = None"
  with assms show "rm_cmd (x # rest) s =
      (s, print_line (''rm: cannot remove '' @ sq @ x @ sq @ '': No such file or directory''), Return)"
    by (simp add: rm_cmd_def)
next
  assume "map_of current_node x = Some (Dir []) \<or> (\<exists>content. map_of current_node x = Some (File content))"
  with assms show "rm_cmd (x # rest) s = (set_current_children (AList.delete x) s, [], Return)"
    by (auto simp: rm_cmd_def)
next
  from assms show "get_current_node (set_current_children (AList.delete x) s) =
      Some (AList.delete x current_node)"
    by (rule get_current_node_set_current_children)
next
  show "map_of (AList.delete x current_node) x = None"
    by (simp add: delete_conv')
next
  show "fst (snd (rm_cmd (x # rest) s)) = [] \<longleftrightarrow>
      map_of current_node x = Some (Dir []) \<or> (\<exists>content. map_of current_node x = Some (File content))"
  proof (cases "map_of current_node x")
    case None
    with assms show ?thesis by (simp add: rm_cmd_def print_line_not_Nil)
  next
    case (Some item)
    show ?thesis
    proof (cases item)
      case (Dir children)
      with Some assms show ?thesis by (simp add: rm_cmd_def print_line_not_Nil)
    next
      case (File content)
      with Some assms show ?thesis by (simp add: rm_cmd_def)
    qed
  qed
qed


lemma rm_cmd_cases_example:
  "rm_cmd [''user''] ((init ''user'')\<lparr>current_path := [''home'']\<rparr>) =
     ((init ''user'')\<lparr>current_path := [''home'']\<rparr>,
      print_line (''rm: failed to remove '' @ sq @ ''user'' @ sq @ '': Directory not empty''), Return) \<and>
   rm_cmd [''nothing''] ((init ''user'')\<lparr>current_path := [''home'']\<rparr>) =
     ((init ''user'')\<lparr>current_path := [''home'']\<rparr>,
      print_line (''rm: cannot remove '' @ sq @ ''nothing'' @ sq @ '': No such file or directory''),
      Return) \<and>
   rm_cmd [''welcome.txt''] (init ''user'') =
     (set_current_children (AList.delete ''welcome.txt'') (init ''user''), [], Return) \<and>
   get_current_node (set_current_children (AList.delete ''welcome.txt'') (init ''user'')) = Some []"
proof -
  have home: "get_current_node ((init ''user'')\<lparr>current_path := [''home'']\<rparr>) =
      Some [(''user'', Dir [(''welcome.txt'',
        File ''Welcome to PyOS! Type 'help' to see available commands.'')])]"
    by (simp add: init_def get_current_node_def)
  have user: "get_current_node (init ''user'') =
      Some [(''welcome.txt'', File ''Welcome to PyOS! Type 'help' to see available commands.'')]"
    by (simp add: init_def get_current_node_def)
  show ?thesis
    using rm_cmd_cases [OF home, of "''user''" "[]"] rm_cmd_cases [OF home, of "''nothing''" "[]"]
      rm_cmd_cases [OF user, of "''welcome.txt''" "[]"]
    by (simp add: AList.delete_eq)
qed

text \<open>
  C5, as the code has it. The code tests for \<^verbatim>\<open>/\<close> and \<^verbatim>\<open>..\<close> before it looks
  at the children, and its message starts with the verb. In a state whose current path resolves
  to a directory, for every argument other than \<^verbatim>\<open>/\<close> and \<^verbatim>\<open>..\<close> that is not a
  directory child of the current directory (absent, or a file), \<^verbatim>\<open>cd\<close> leaves the state
  as it was and prints exactly \<^verbatim>\<open>cd: no such directory: <arg>\<close>.
\<close>

theorem cd_no_such_directory:
  assumes "get_current_node s = Some current_node"
    and "arg \<noteq> ''/''" and "arg \<noteq> ''..''"
    and "map_of current_node arg = None \<or> (\<exists>content. map_of current_node arg = Some (File content))"
  shows "cd_cmd (arg # rest) s = (s, print_line (''cd: no such directory: '' @ arg), Return)"
  using assms by (auto simp: cd_cmd_def)

theorem cd_no_such_directory_witness:
  "cd_cmd [''nonexistent''] (init ''user'') =
     (init ''user'', print_line ''cd: no such directory: nonexistent'', Return) \<and>
   cd_cmd [''welcome.txt''] (init ''user'') =
     (init ''user'', print_line ''cd: no such directory: welcome.txt'', Return)"
proof -
  have user: "get_current_node (init ''user'') =
      Some [(''welcome.txt'', File ''Welcome to PyOS! Type 'help' to see available commands.'')]"
    by (simp add: init_def get_current_node_def)
  show ?thesis
    using cd_no_such_directory [OF user, of "''nonexistent''" "[]"]
      cd_no_such_directory [OF user, of "''welcome.txt''" "[]"]
    by simp
qed

text \<open>
  C5 as the claim states it fails twice in the start state of user \<^verbatim>\<open>user\<close>, whose
  current directory holds only the file \<^verbatim>\<open>welcome.txt\<close>: the argument \<^verbatim>\<open>..\<close> is
  no directory child there, yet \<^verbatim>\<open>cd ..\<close> changes the current path and prints nothing;
  and \<^verbatim>\<open>cd nonexistent\<close> prints a line that starts with \<^verbatim>\<open>cd: \<close>, not the claimed
  text.
\<close>

theorem cd_no_such_directory_counterexample:
  "get_current_node (init ''user'') =
     Some [(''welcome.txt'', File ''Welcome to PyOS! Type 'help' to see available commands.'')] \<and>
   cd_cmd [''..''] (init ''user'') = ((init ''user'')\<lparr>current_path := [''home'']\<rparr>, [], Return) \<and>
   current_path (fst (cd_cmd [''..''] (init ''user''))) \<noteq> current_path (init ''user'') \<and>
   fst (snd (cd_cmd [''nonexistent''] (init ''user''))) =
     print_line ''cd: no such directory: nonexistent'' \<and>
   fst (snd (cd_cmd [''nonexistent''] (init ''user''))) \<noteq>
     print_line ''no such directory: nonexistent''"
  by (simp add: init_def get_current_node_def cd_cmd_def print_line_def)

section \<open>Creating directories\<close>

text \<open>
  A Python dict holds a key once. The association list that stands for it does so when its keys
  are distinct; then a name has at most one entry, and exactly one after an update.
\<close>

lemma entries_of_present_key:
  "distinct (map fst al) \<Longrightarrow> map_of al x = Some v \<Longrightarrow>
     length (filter (\<lambda>entry. fst entry = x) al) = 1"
proof (induction al)
  case Nil
  then show ?case by simp
next
  case (Cons e es)
  show ?case
  proof (cases "fst e = x")
    case True
    with Cons.prems have "x \<notin> fst ` set es" by auto
    then have "filter (\<lambda>entry. fst entry = x) es = []"
      by (auto simp: filter_empty_conv)
    with True show ?thesis by simp
  next
    case False
    with Cons show ?thesis by simp
  qed
qed

lemma entries_after_update:
  "map_of al x = None \<Longrightarrow> length (filter (\<lambda>entry. fst entry = x) (AList.update x v al)) = 1"
proof (induction al)
  case Nil
  show ?case by simp
next
  case (Cons e es)
  then show ?case by (cases e) (auto split: if_splits)
qed

text \<open>
  C4, as the code has it: the message starts with the verb. In a state whose current path
  resolves to a directory, after \<^verbatim>\<open>mkdir x\<close> a second \<^verbatim>\<open>mkdir x\<close> prints exactly
  \<^verbatim>\<open>mkdir: cannot create directory 'x': File exists\<close> and leaves the state as it was, and
  the current directory has exactly one child named \<open>x\<close>; and \<^verbatim>\<open>mkdir x\<close> over an
  existing child of either kind prints that message and changes nothing.
\<close>

theorem mkdir_twice:
  assumes "get_current_node s = Some current_node" and "distinct (map fst current_node)"
  shows
    "mkdir_cmd (x # rest') (fst (mkdir_cmd (x # rest) s)) =
       (fst (mkdir_cmd (x # rest) s),
        print_line (''mkdir: cannot create directory '' @ sq @ x @ sq @ '': File exists''), Return) \<and>
     (\<exists>children. get_current_node (fst (mkdir_cmd (x # rest) s)) = Some children \<and>
        length (filter (\<lambda>entry. fst entry = x) children) = 1) \<and>
     (\<forall>item. map_of current_node x = Some item \<longrightarrow>
        mkdir_cmd (x # rest) s =
          (s, print_line (''mkdir: cannot create directory '' @ sq @ x @ sq @ '': File exists''),
           Return))"
proof (cases "map_of current_node x")
  case None
  let ?s1 = "set_current_children (AList.update x (Dir [])) s"
  from None assms have first: "mkdir_cmd (x # rest) s = (?s1, [], Return)"
    by (simp add: mkdir_cmd_def)
  from assms have node1: "get_current_node ?s1 = Some (AList.update x (Dir []) current_node)"
    by (simp add: get_current_node_set_current_children)
  have "map_of (AList.update x (Dir []) current_node) x = Some (Dir [])"
    by (simp add: update_conv')
  with node1 have second: "mkdir_cmd (x # rest') ?s1 =
      (?s1, print_line (''mkdir: cannot create directory '' @ sq @ x @ sq @ '': File exists''),
       Return)"
    by (simp add: mkdir_cmd_def)
  from None have "length (filter (\<lambda>entry. fst entry = x) (AList.update x (Dir []) current_node)) = 1"
    by (rule entries_after_update)
  with first second node1 None show ?thesis by simp
next
  case (Some item)
  with assms have first: "mkdir_cmd (x # rest) s =
      (s, print_line (''mkdir: cannot create directory '' @ sq @ x @ sq @ '': File exists''),
       Return)"
    by (simp add: mkdir_cmd_def)
  from Some assms have second: "mkdir_cmd (x # rest') s =
      (s, print_line (''mkdir: cannot create directory '' @ sq @ x @ sq @ '': File exists''),
       Return)"
    by (simp add: mkdir_cmd_def)
  from assms Some have "length (filter (\<lambda>entry. fst entry = x) current_node) = 1"
    by (simp add: entries_of_present_key)
  with first second assms show ?thesis by simp
qed

theorem mkdir_twice_witness:
  "mkdir_cmd [''x''] (fst (mkdir_cmd [''x''] (init ''user''))) =
     (fst (mkdir_cmd [''x''] (init ''user'')),
      print_line (''mkdir: cannot create directory '' @ sq @ ''x'' @ sq @ '': File exists''), Return) \<and>
   get_current_node (fst (mkdir_cmd [''x''] (init ''user''))) =
     Some [(''welcome.txt'', File ''Welcome to PyOS! Type 'help' to see available commands.''),
           (''x'', Dir [])] \<and>
   mkdir_cmd [''welcome.txt''] (init ''user'') =
     (init ''user'',
      print_line (''mkdir: cannot create directory '' @ sq @ ''welcome.txt'' @ sq @ '': File exists''),
      Return)"
proof -
  have user: "get_current_node (init ''user'') =
      Some [(''welcome.txt'', File ''Welcome to PyOS! Type 'help' to see available commands.'')]"
    by (simp add: init_def get_current_node_def)
  have keys: "distinct (map fst
      [(''welcome.txt'', File ''Welcome to PyOS! Type 'help' to see available commands.'')])"
    by simp
  have made: "get_current_node (fst (mkdir_cmd [''x''] (init ''user''))) =
     Some [(''welcome.txt'', File ''Welcome to PyOS! Type 'help' to see available commands.''),
           (''x'', Dir [])]"
    by (simp add: mkdir_cmd_def init_def get_current_node_def set_current_children_def)
  show ?thesis
    using mkdir_twice [OF user keys, of "''x''" "[]" "[]"]
      mkdir_twice [OF user keys, of "''welcome.txt''" "[]" "[]"] made
    by simp
qed

text \<open>
  C4 as the claim states it fails on the message: in the start state of user \<^verbatim>\<open>user\<close> the
  second \<^verbatim>\<open>mkdir x\<close> prints a line that starts with \<^verbatim>\<open>mkdir: \<close>, not the claimed
  text.
\<close>

theorem mkdir_twice_counterexample:
  "fst (snd (mkdir_cmd [''x''] (fst (mkdir_cmd [''x''] (init ''user''))))) =
     print_line ''mkdir: cannot create directory 'x': File exists'' \<and>
   fst (snd (mkdir_cmd [''x''] (fst (mkdir_cmd [''x''] (init ''user''))))) \<noteq>
     print_line ''cannot create directory 'x': File exists''"
  by (simp add: mkdir_cmd_def init_def get_current_node_def set_current_children_def
      print_line_def sq_def)

section \<open>Writing and reading files\<close>

lemma echo_cmd_writes:
  assumes "get_current_node s = Some current_node" and "''>'' \<notin> set ts"
  shows "echo_cmd (ts @ [''>'', f]) s =
     (set_current_children (AList.update f (File (join '' '' ts))) s, [], Return)"
proof -
  from assms(2) have idx: "index_of ''>'' (ts @ [''>'', f]) = Some (length ts)"
    by (simp add: index_of_append)
  have nth: "(ts @ [''>'', f]) ! (length ts + 1) = f"
    by (simp add: nth_append)
  from idx nth assms(1) show ?thesis
    by (simp add: echo_cmd_def)
qed

lemma cat_cmd_file:
  "get_current_node s = Some current_node \<Longrightarrow> map_of current_node f = Some (File content) \<Longrightarrow>
     cat_cmd (f # rest) s = (s, print_line content, Return)"
  by (simp add: cat_cmd_def)

text \<open>
  C2, as the code has it: the redirection is the first \<^verbatim>\<open>>\<close> among the arguments. In a
  state whose current path resolves to a directory, \<^verbatim>\<open>echo\<close> with tokens \<open>ts\<close>, none of
  which is \<^verbatim>\<open>>\<close>, then \<^verbatim>\<open>>\<close> and a file name writes the tokens joined by single
  spaces into that file of the current directory and prints nothing, and \<^verbatim>\<open>cat\<close> of the
  name then prints exactly the joined text; a second such \<^verbatim>\<open>echo\<close> with tokens \<open>us\<close>
  to the same name replaces the content, so that \<^verbatim>\<open>cat\<close> prints exactly the second text.
\<close>

theorem echo_then_cat:
  assumes "get_current_node s = Some current_node"
    and "''>'' \<notin> set ts" and "''>'' \<notin> set us"
  shows
    "echo_cmd (ts @ [''>'', f]) s =
       (set_current_children (AList.update f (File (join '' '' ts))) s, [], Return) \<and>
     get_current_node (fst (echo_cmd (ts @ [''>'', f]) s)) =
       Some (AList.update f (File (join '' '' ts)) current_node) \<and>
     cat_cmd [f] (fst (echo_cmd (ts @ [''>'', f]) s)) =
       (fst (echo_cmd (ts @ [''>'', f]) s), print_line (join '' '' ts), Return) \<and>
     cat_cmd [f] (fst (echo_cmd (us @ [''>'', f]) (fst (echo_cmd (ts @ [''>'', f]) s)))) =
       (fst (echo_cmd (us @ [''>'', f]) (fst (echo_cmd (ts @ [''>'', f]) s))),
        print_line (join '' '' us), Return)"
proof -
  let ?s1 = "set_current_children (AList.update f (File (join '' '' ts))) s"
  let ?n1 = "AList.update f (File (join '' '' ts)) current_node"
  let ?s2 = "set_current_children (AList.update f (File (join '' '' us))) ?s1"
  let ?n2 = "AList.update f (File (join '' '' us)) ?n1"
  have e1: "echo_cmd (ts @ [''>'', f]) s = (?s1, [], Return)"
    using assms(1,2) by (rule echo_cmd_writes)
  have n1: "get_current_node ?s1 = Some ?n1"
    using assms(1) by (rule get_current_node_set_current_children)
  have c1: "cat_cmd [f] ?s1 = (?s1, print_line (join '' '' ts), Return)"
    using n1 by (rule cat_cmd_file) (simp add: update_conv')
  have e2: "echo_cmd (us @ [''>'', f]) ?s1 = (?s2, [], Return)"
    using n1 assms(3) by (rule echo_cmd_writes)
  have n2: "get_current_node ?s2 = Some ?n2"
    using n1 by (rule get_current_node_set_current_children)
  have c2: "cat_cmd [f] ?s2 = (?s2, print_line (join '' '' us), Return)"
    using n2 by (rule cat_cmd_file) (simp add: update_conv')
  from e1 n1 c1 e2 c2 show ?thesis by simp
qed

theorem echo_then_cat_witness:
  "cat_cmd [''f.txt'']
     (fst (echo_cmd ([''hello'', ''world''] @ [''>'', ''f.txt'']) (init ''user''))) =
     (fst (echo_cmd ([''hello'', ''world''] @ [''>'', ''f.txt'']) (init ''user'')),
      print_line ''hello world'', Return) \<and>
   cat_cmd [''f.txt'']
     (fst (echo_cmd ([''b''] @ [''>'', ''f.txt''])
        (fst (echo_cmd ([''hello'', ''world''] @ [''>'', ''f.txt'']) (init ''user''))))) =
     (fst (echo_cmd ([''b''] @ [''>'', ''f.txt''])
        (fst (echo_cmd ([''hello'', ''world''] @ [''>'', ''f.txt'']) (init ''user'')))),
      print_line ''b'', Return)"
proof -
  have user: "get_current_node (init ''user'') =
      Some [(''welcome.txt'', File ''Welcome to PyOS! Type 'help' to see available commands.'')]"
    by (simp add: init_def get_current_node_def)
  have t: "''>'' \<notin> set [''hello'', ''world'']" by simp
  have u: "''>'' \<notin> set [''b'']" by simp
  have j: "join '' '' [''hello'', ''world''] = ''hello world''" "join '' '' [''b''] = ''b''"
    by simp_all
  show ?thesis
    using echo_then_cat [OF user t u, of "''f.txt''"] unfolding j by blast
qed

text \<open>
  C2 as the claim states it fails when one of the text tokens is itself \<^verbatim>\<open>>\<close>: in the
  start state of user \<^verbatim>\<open>user\<close>, \<^verbatim>\<open>echo a > b > f\<close> has the tokens \<^verbatim>\<open>a\<close>,
  \<^verbatim>\<open>>\<close>, \<^verbatim>\<open>b\<close> before the last \<^verbatim>\<open>>\<close> and the file name \<^verbatim>\<open>f\<close>, but the
  code writes \<^verbatim>\<open>a\<close> into \<^verbatim>\<open>b\<close>, and \<^verbatim>\<open>cat f\<close> finds no file.
\<close>

theorem echo_then_cat_counterexample:
  "fst (snd (cat_cmd [''f'']
     (fst (echo_cmd ([''a'', ''>'', ''b''] @ [''>'', ''f'']) (init ''user''))))) =
     print_line ''cat: f: No such file or it is a directory'' \<and>
   fst (snd (cat_cmd [''f'']
     (fst (echo_cmd ([''a'', ''>'', ''b''] @ [''>'', ''f'']) (init ''user''))))) \<noteq>
     print_line (join '' '' [''a'', ''>'', ''b'']) \<and>
   fst (snd (cat_cmd [''b'']
     (fst (echo_cmd ([''a'', ''>'', ''b''] @ [''>'', ''f'']) (init ''user''))))) = print_line ''a''"
  by (simp add: echo_cmd_def cat_cmd_def init_def get_current_node_def set_current_children_def
      print_line_def)

text \<open>
  C10, as the code has it: the file name is the token after the first \<^verbatim>\<open>>\<close>. In a state
  whose current path resolves to a directory, \<^verbatim>\<open>echo\<close> with text tokens \<open>ts\<close>, none
  of which is \<^verbatim>\<open>>\<close>, then \<^verbatim>\<open>>\<close> and a name that is a directory child replaces
  that entry, subtree and all, by a file with the echoed text, printing nothing and raising
  nothing; and in such a state \<^verbatim>\<open>echo > f\<close> with no text token writes the empty string
  into \<^verbatim>\<open>f\<close> instead of printing the usage line.
\<close>

theorem echo_replaces_directory:
  assumes "get_current_node s = Some current_node" and "''>'' \<notin> set ts"
  shows
    "(\<forall>subtree. map_of current_node name = Some (Dir subtree) \<longrightarrow>
        echo_cmd (ts @ [''>'', name]) s =
          (set_current_children (AList.update name (File (join '' '' ts))) s, [], Return) \<and>
        get_current_node (fst (echo_cmd (ts @ [''>'', name]) s)) =
          Some (AList.update name (File (join '' '' ts)) current_node) \<and>
        map_of (AList.update name (File (join '' '' ts)) current_node) name =
          Some (File (join '' '' ts))) \<and>
     echo_cmd [''>'', f] s = (set_current_children (AList.update f (File [])) s, [], Return) \<and>
     get_current_node (fst (echo_cmd [''>'', f] s)) = Some (AList.update f (File []) current_node)"
proof -
  have e: "echo_cmd (ts @ [''>'', name]) s =
      (set_current_children (AList.update name (File (join '' '' ts))) s, [], Return)"
    using assms by (rule echo_cmd_writes)
  have n: "get_current_node (set_current_children (AList.update name (File (join '' '' ts))) s) =
      Some (AList.update name (File (join '' '' ts)) current_node)"
    using assms(1) by (rule get_current_node_set_current_children)
  have m: "map_of (AList.update name (File (join '' '' ts)) current_node) name =
      Some (File (join '' '' ts))"
    by (simp add: update_conv')
  have e0: "echo_cmd [''>'', f] s = (set_current_children (AList.update f (File [])) s, [], Return)"
    using echo_cmd_writes [OF assms(1), of "[]" f] by simp
  have n0: "get_current_node (set_current_children (AList.update f (File [])) s) =
      Some (AList.update f (File []) current_node)"
    using assms(1) by (rule get_current_node_set_current_children)
  from e n m e0 n0 show ?thesis by simp
qed

theorem echo_replaces_directory_witness:
  "echo_cmd ([''some'', ''text''] @ [''>'', ''user''])
     ((init ''user'')\<lparr>current_path := [''home'']\<rparr>) =
     (set_current_children (AList.update ''user'' (File ''some text''))
        ((init ''user'')\<lparr>current_path := [''home'']\<rparr>), [], Return) \<and>
   get_current_node (fst (echo_cmd ([''some'', ''text''] @ [''>'', ''user''])
     ((init ''user'')\<lparr>current_path := [''home'']\<rparr>))) = Some [(''user'', File ''some text'')] \<and>
   get_current_node (fst (echo_cmd [''>'', ''f''] ((init ''user'')\<lparr>current_path := [''home'']\<rparr>))) =
     Some [(''user'', Dir [(''welcome.txt'',
        File ''Welcome to PyOS! Type 'help' to see available commands.'')]), (''f'', File [])]"
proof -
  have home: "get_current_node ((init ''user'')\<lparr>current_path := [''home'']\<rparr>) =
      Some [(''user'', Dir [(''welcome.txt'',
        File ''Welcome to PyOS! Type 'help' to see available commands.'')])]"
    by (simp add: init_def get_current_node_def)
  have t: "''>'' \<notin> set [''some'', ''text'']" by simp
  show ?thesis
    using echo_replaces_directory [OF home t, of "''user''" "''f''"]
    by (simp add: get_current_node_set_current_children [OF home])
qed

text \<open>
  C10 as the claim states it fails when a text token is itself \<^verbatim>\<open>>\<close>: in
  \<^verbatim>\<open>/home\<close> of the start tree, \<^verbatim>\<open>echo a > b > user\<close> ends in \<^verbatim>\<open>> user\<close>
  and \<^verbatim>\<open>user\<close> is a directory child, but the code writes \<^verbatim>\<open>a\<close> into the new file
  \<^verbatim>\<open>b\<close> and the directory \<^verbatim>\<open>user\<close> stays as it was.
\<close>

theorem echo_replaces_directory_counterexample:
  "get_current_node ((init ''user'')\<lparr>current_path := [''home'']\<rparr>) =
     Some [(''user'', Dir [(''welcome.txt'',
        File ''Welcome to PyOS! Type 'help' to see available commands.'')])] \<and>
   snd (echo_cmd ([''a'', ''>'', ''b''] @ [''>'', ''user''])
     ((init ''user'')\<lparr>current_path := [''home'']\<rparr>)) = ([], Return) \<and>
   get_current_node (fst (echo_cmd ([''a'', ''>'', ''b''] @ [''>'', ''user''])
     ((init ''user'')\<lparr>current_path := [''home'']\<rparr>))) =
     Some [(''user'', Dir [(''welcome.txt'',
        File ''Welcome to PyOS! Type 'help' to see available commands.'')]), (''b'', File ''a'')] \<and>
   get_current_node (fst (echo_cmd ([''a'', ''>'', ''b''] @ [''>'', ''user''])
     ((init ''user'')\<lparr>current_path := [''home'']\<rparr>))) \<noteq>
     Some [(''user'', File (join '' '' [''a'', ''>'', ''b'']))]"
  by (simp add: echo_cmd_def init_def get_current_node_def set_current_children_def)

section \<open>Listing\<close>

lemma ls_cmd_lists:
  assumes "get_current_node s = Some children"
  shows "ls_cmd args s =
     (s,
      (if children = [] then []
       else print_line (concat (map
         (\<lambda>name. (case map_of children name of Some (Dir _) \<Rightarrow> name @ ''/'' | _ \<Rightarrow> name) @ ''  '')
         (sort (map fst children))))),
      Return)"
proof (cases "children = []")
  case True
  with assms show ?thesis by (simp add: ls_cmd_def)
next
  case False
  have "set (sort (map fst children)) \<subseteq> fst ` set children" by simp
  from ls_loop_keys [OF this] False assms show ?thesis
    by (simp add: ls_cmd_def)
qed

text \<open>
  What \<^verbatim>\<open>ls\<close> does in a state whose current path resolves to a directory: with any
  argument list it returns without raising and leaves the state as it was; it prints nothing for an empty
  directory and otherwise one line that holds the names of the children of the current directory
  in ascending order, each followed by \<^verbatim>\<open>/\<close> when it names a directory and by nothing when
  it names a file, then by two spaces. The arguments do not occur in the result.
\<close>

lemma ls_cmd_sorted_listing:
  assumes "get_current_node s = Some children"
  shows "\<exists>names.
     sorted names \<and> mset names = mset (map fst children) \<and>
     ls_cmd args s =
       (s,
        (if names = [] then []
         else print_line (concat (map
           (\<lambda>name. (case map_of children name of Some (Dir _) \<Rightarrow> name @ ''/'' | _ \<Rightarrow> name) @ ''  '')
           names))),
        Return)"
proof (intro exI conjI)
  show "sorted (sort (map fst children))" by simp
  show "mset (sort (map fst children)) = mset (map fst children)" by simp
  show "ls_cmd args s =
       (s,
        (if sort (map fst children) = [] then []
         else print_line (concat (map
           (\<lambda>name. (case map_of children name of Some (Dir _) \<Rightarrow> name @ ''/'' | _ \<Rightarrow> name) @ ''  '')
           (sort (map fst children))))),
        Return)"
    using ls_cmd_lists [OF assms, of args] by (cases children) simp_all
qed

lemma ls_cmd_sorted_listing_example:
  "(\<exists>names. sorted names \<and> mset names = mset [''home'', ''etc''] \<and>
      ls_cmd [''/etc''] ((init ''user'')\<lparr>current_path := []\<rparr>) =
        ((init ''user'')\<lparr>current_path := []\<rparr>,
         (if names = [] then []
          else print_line (concat (map
            (\<lambda>name. (case map_of (file_system (init ''user'')) name of
                 Some (Dir _) \<Rightarrow> name @ ''/'' | _ \<Rightarrow> name) @ ''  '') names))),
         Return)) \<and>
   ls_cmd [] (fst (mkdir_cmd [''docs''] (init ''user''))) =
     (fst (mkdir_cmd [''docs''] (init ''user'')), print_line ''docs/  welcome.txt  '', Return)"
proof -
  have root: "get_current_node ((init ''user'')\<lparr>current_path := []\<rparr>) =
      Some (file_system (init ''user''))"
    by (simp add: get_current_node_def)
  have keys: "map fst (file_system (init ''user'')) = [''home'', ''etc'']"
    by (simp add: init_def)
  have made: "ls_cmd [] (fst (mkdir_cmd [''docs''] (init ''user''))) =
     (fst (mkdir_cmd [''docs''] (init ''user'')), print_line ''docs/  welcome.txt  '', Return)"
    by (simp add: ls_cmd_def mkdir_cmd_def init_def get_current_node_def
        set_current_children_def print_line_def)
  show ?thesis
    using ls_cmd_sorted_listing [OF root, of "[''/etc'']"] made unfolding keys by blast
qed

section \<open>The dispatch boundary\<close>

lemma ls_loop_no_exit: "snd (ls_loop children names) \<noteq> SystemExit"
  by (induction names) (auto split: option.splits prod.splits)

lemma ls_cmd_no_exit: "snd (snd (ls_cmd args s)) \<noteq> SystemExit"
proof (cases "get_current_node s")
  case None
  then show ?thesis by (simp add: ls_cmd_def)
next
  case (Some node)
  obtain out r where l: "ls_loop node (sort (map fst node)) = (out, r)"
    by (cases "ls_loop node (sort (map fst node))")
  with ls_loop_no_exit [of node "sort (map fst node)"] have "r \<noteq> SystemExit" by simp
  with Some l show ?thesis by (cases r) (simp_all add: ls_cmd_def Let_def)
qed

lemma help_cmd_no_exit: "snd (snd (help_cmd args s)) \<noteq> SystemExit"
  by (simp add: help_cmd_def)

lemma cd_cmd_no_exit: "snd (snd (cd_cmd args s)) \<noteq> SystemExit"
  by (simp add: cd_cmd_def split: list.splits option.splits node.splits)

lemma mkdir_cmd_no_exit: "snd (snd (mkdir_cmd args s)) \<noteq> SystemExit"
  by (simp add: mkdir_cmd_def split: list.splits option.splits)

lemma cat_cmd_no_exit: "snd (snd (cat_cmd args s)) \<noteq> SystemExit"
  by (simp add: cat_cmd_def split: list.splits option.splits node.splits)

lemma echo_cmd_no_exit: "snd (snd (echo_cmd args s)) \<noteq> SystemExit"
  by (simp add: echo_cmd_def Let_def split: option.splits)

lemma rm_cmd_no_exit: "snd (snd (rm_cmd args s)) \<noteq> SystemExit"
  by (simp add: rm_cmd_def split: list.splits option.splits node.splits)

lemma pwd_cmd_no_exit: "snd (snd (pwd_cmd args s)) \<noteq> SystemExit"
  by (simp add: pwd_cmd_def)

lemma date_cmd_no_exit: "snd (snd (date_cmd now args s)) \<noteq> SystemExit"
  by (simp add: date_cmd_def)

lemma get_commands_no_exit:
  assumes "get_commands now command = Some h" and "command \<noteq> ''exit''"
  shows "snd (snd (h args s)) \<noteq> SystemExit"
proof -
  from assms have "h = help_cmd \<or> h = ls_cmd \<or> h = cd_cmd \<or> h = mkdir_cmd \<or> h = cat_cmd \<or>
      h = echo_cmd \<or> h = rm_cmd \<or> h = pwd_cmd \<or> h = date_cmd now"
    by (auto simp: get_commands_def split: if_splits)
  then show ?thesis
    using help_cmd_no_exit ls_cmd_no_exit cd_cmd_no_exit mkdir_cmd_no_exit cat_cmd_no_exit
      echo_cmd_no_exit rm_cmd_no_exit pwd_cmd_no_exit date_cmd_no_exit
    by blast
qed

lemma dispatch_running:
  assumes "command \<noteq> ''exit''"
  shows "snd (snd (dispatch (get_commands now) command args s)) = Running"
proof (cases "get_commands now command")
  case None
  then show ?thesis by (simp add: dispatch_def)
next
  case (Some h)
  obtain s' out r where r: "h args s = (s', out, r)"
    by (cases "h args s") auto
  with get_commands_no_exit [OF Some assms, of args s] have "r \<noteq> SystemExit" by simp
  with Some r show ?thesis by (cases r) (simp_all add: dispatch_def)
qed

lemma get_commands_unknown:
  "command \<notin> set [''help'', ''ls'', ''cd'', ''mkdir'', ''cat'', ''echo'', ''rm'', ''pwd'', ''date'',
      ''exit''] \<Longrightarrow> get_commands now command = None"
  by (simp add: get_commands_def)

lemma loop_body_running:
  assumes "\<forall>args. split user_input \<noteq> ''exit'' # args"
  shows "snd (snd (loop_body now (Line user_input) s)) = Running"
proof (cases "strip user_input = []")
  case True
  then show ?thesis by (simp add: loop_body_def)
next
  case False
  then have "split user_input \<noteq> []" by (rule split_not_Nil)
  then obtain command args where parts: "split user_input = command # args"
    by (cases "split user_input") auto
  with assms have "command \<noteq> ''exit''" by auto
  from dispatch_running [OF this, of now args s] False parts show ?thesis
    by (auto simp: loop_body_def split: prod.splits)
qed

text \<open>
  C8. No dispatched command other than \<^verbatim>\<open>exit\<close> ends the session: dispatching any other
  verb, and running the loop body on any line whose first token is not \<^verbatim>\<open>exit\<close>, leaves
  the session running. A verb outside the command table prints \<^verbatim>\<open><verb>: command not found\<close>
  and changes nothing. Whatever table of handlers the dispatcher is given, a handler that raises
  is reported as \<^verbatim>\<open>An error occurred executing '<verb>': <message>\<close> after what it had
  printed, and the session keeps running.
\<close>

theorem dispatch_keeps_running:
  "(command \<noteq> ''exit'' \<longrightarrow> snd (snd (dispatch (get_commands now) command args s)) = Running) \<and>
   ((\<forall>rest. split user_input \<noteq> ''exit'' # rest) \<longrightarrow>
      snd (snd (loop_body now (Line user_input) s)) = Running) \<and>
   (command \<notin> set [''help'', ''ls'', ''cd'', ''mkdir'', ''cat'', ''echo'', ''rm'', ''pwd'', ''date'',
        ''exit''] \<longrightarrow>
      dispatch (get_commands now) command args s =
        (s, print_line (command @ '': command not found''), Running)) \<and>
   (\<forall>h s' out e. commands command = Some h \<and> h args s = (s', out, Raise e) \<longrightarrow>
      dispatch commands command args s =
        (s', out @ print_line (''An error occurred executing '' @ sq @ command @ sq @ '': '' @
           str_exn e), Running))"
proof (intro conjI impI allI)
  assume "command \<noteq> ''exit''"
  then show "snd (snd (dispatch (get_commands now) command args s)) = Running"
    by (rule dispatch_running)
next
  assume "\<forall>rest. split user_input \<noteq> ''exit'' # rest"
  then show "snd (snd (loop_body now (Line user_input) s)) = Running"
    by (rule loop_body_running)
next
  assume "command \<notin> set [''help'', ''ls'', ''cd'', ''mkdir'', ''cat'', ''echo'', ''rm'', ''pwd'',
      ''date'', ''exit'']"
  then have "get_commands now command = None" by (rule get_commands_unknown)
  then show "dispatch (get_commands now) command args s =
      (s, print_line (command @ '': command not found''), Running)"
    by (simp add: dispatch_def)
next
  fix h s' out e
  assume "commands command = Some h \<and> h args s = (s', out, Raise e)"
  then show "dispatch commands command args s =
      (s', out @ print_line (''An error occurred executing '' @ sq @ command @ sq @ '': '' @
         str_exn e), Running)"
    by (simp add: dispatch_def)
qed

section \<open>The current path and the tree\<close>

lemma split_examples:
  "split ''rm welcome.txt'' = [''rm'', ''welcome.txt'']"
  "split ''cd ..'' = [''cd'', ''..'']"
  "split ''rm user'' = [''rm'', ''user'']"
  "split ''cd'' = [''cd'']"
  "split ''ls'' = [''ls'']"
  "split ''foo bar'' = [''foo'', ''bar'']"
  by (simp_all add: split_def isspace_def)

lemma strip_examples:
  "strip ''rm welcome.txt'' \<noteq> []"
  "strip ''cd ..'' \<noteq> []"
  "strip ''rm user'' \<noteq> []"
  "strip ''cd'' \<noteq> []"
  "strip ''ls'' \<noteq> []"
  "strip ''foo bar'' \<noteq> []"
  by (simp_all add: strip_def isspace_def)

lemma home_removed_reaches:
  "fst (run_loop home_removed (init ''user'')) = dangling \<and>
   snd (snd (run_loop home_removed (init ''user''))) = Running"
  by (simp add: home_removed_def dangling_def loop_body_def split_examples strip_examples
      dispatch_def get_commands_def rm_cmd_def cd_cmd_def get_current_node_def
      set_current_children_def init_def AList.delete_eq)

lemma dangling_no_node: "get_current_node dangling = None"
  by (simp add: dangling_def get_current_node_def)

lemma dangling_ls:
  "loop_body now (Line ''ls'') dangling =
     (dangling,
      get_prompt dangling @
      print_line ''An error occurred executing 'ls': 'NoneType' object is not subscriptable'',
      Running)"
  by (simp add: loop_body_def split_examples strip_examples dispatch_def get_commands_def
      ls_cmd_def dangling_no_node sq_def print_line_def)

text \<open>
  C9 fails on the session \<open>home_removed\<close>. Started for user \<^verbatim>\<open>user\<close>, the session stays running and
  reaches a state whose current path \<^verbatim>\<open>/home/user\<close> names no node of the tree:
  \<^verbatim>\<open>cd\<close> without argument sets the path to the home directory without looking whether it
  still exists, where \<^verbatim>\<open>cd <name>\<close> does look. \<^verbatim>\<open>_get_current_node\<close> then returns
  \<^verbatim>\<open>None\<close> at the entry of the next handler, and \<^verbatim>\<open>ls\<close> is reported as an error.
\<close>

theorem cd_home_dangling_path:
  "get_current_node (init ''user'') \<noteq> None \<and>
   snd (snd (run_loop home_removed (init ''user''))) = Running \<and>
   current_path (fst (run_loop home_removed (init ''user''))) = [''home'', ''user''] \<and>
   get_current_node (fst (run_loop home_removed (init ''user''))) = None \<and>
   fst (snd (loop_body ''t5'' (Line ''ls'') (fst (run_loop home_removed (init ''user''))))) =
     ''user@pyos-main:/home/user$ '' @
     print_line ''An error occurred executing 'ls': 'NoneType' object is not subscriptable''"
proof -
  have "get_current_node (init ''user'') \<noteq> None"
    by (simp add: init_def get_current_node_def)
  moreover have "current_path dangling = [''home'', ''user'']"
    by (simp add: dangling_def)
  moreover have "get_prompt dangling = ''user@pyos-main:/home/user$ ''"
    by (simp add: get_prompt_def path_str_def dangling_def)
  ultimately show ?thesis
    using home_removed_reaches dangling_no_node dangling_ls [of "''t5''"] by simp
qed

theorem dispatch_keeps_running_witness:
  "snd (snd (dispatch (get_commands ''now'') ''foo'' [''bar''] (init ''user''))) = Running \<and>
   snd (snd (loop_body ''now'' (Line ''foo bar'') (init ''user''))) = Running \<and>
   dispatch (get_commands ''now'') ''foo'' [''bar''] (init ''user'') =
     (init ''user'', print_line ''foo: command not found'', Running) \<and>
   dispatch (get_commands ''now'') ''ls'' [] dangling =
     (dangling,
      print_line ''An error occurred executing 'ls': 'NoneType' object is not subscriptable'',
      Running)"
proof -
  note foo = dispatch_keeps_running [of "''foo''" "''now''" "[''bar'']" "init ''user''"
      "''foo bar''" "get_commands ''now''"]
  note ls = dispatch_keeps_running [of "''ls''" "''now''" "[]" dangling "''ls''"
      "get_commands ''now''"]
  have c1: "snd (snd (dispatch (get_commands ''now'') ''foo'' [''bar''] (init ''user''))) = Running"
    using foo by simp
  have c2: "snd (snd (loop_body ''now'' (Line ''foo bar'') (init ''user''))) = Running"
    using foo by (simp add: split_examples)
  have c3: "dispatch (get_commands ''now'') ''foo'' [''bar''] (init ''user'') =
     (init ''user'', print_line ''foo: command not found'', Running)"
    using foo by simp
  have raised: "get_commands ''now'' ''ls'' = Some ls_cmd \<and>
      ls_cmd [] dangling = (dangling, [], Raise TypeError)"
    by (simp add: get_commands_def ls_cmd_def dangling_no_node)
  have "dispatch (get_commands ''now'') ''ls'' [] dangling =
     (dangling,
      [] @ print_line (''An error occurred executing '' @ sq @ ''ls'' @ sq @ '': '' @
         str_exn TypeError), Running)"
    using ls raised by blast
  then have c4: "dispatch (get_commands ''now'') ''ls'' [] dangling =
     (dangling,
      print_line ''An error occurred executing 'ls': 'NoneType' object is not subscriptable'',
      Running)"
    by (simp add: sq_def)
  from c1 c2 c3 c4 show ?thesis by blast
qed

text \<open>
  C3 fails in the state that the session \<open>home_removed\<close> reaches, for the same reason as C9:
  no name is a child there, so \<^verbatim>\<open>rm x\<close> should print the not-found message, but the
  current path names no node, \<^verbatim>\<open>_rm\<close> subscripts \<^verbatim>\<open>None\<close>, and the dispatcher
  reports the \<^verbatim>\<open>TypeError\<close> instead.
\<close>

theorem rm_without_current_directory:
  "snd (snd (run_loop home_removed (init ''user''))) = Running \<and>
   rm_cmd (name # rest) (fst (run_loop home_removed (init ''user''))) =
     (fst (run_loop home_removed (init ''user'')), [], Raise TypeError) \<and>
   dispatch (get_commands now) ''rm'' (name # rest) (fst (run_loop home_removed (init ''user''))) =
     (fst (run_loop home_removed (init ''user'')),
      print_line ''An error occurred executing 'rm': 'NoneType' object is not subscriptable'',
      Running) \<and>
   fst (snd (dispatch (get_commands now) ''rm'' (name # rest)
       (fst (run_loop home_removed (init ''user''))))) \<noteq>
     print_line (''rm: cannot remove '' @ sq @ name @ sq @ '': No such file or directory'')"
proof -
  have rm: "rm_cmd (name # rest) dangling = (dangling, [], Raise TypeError)"
    by (simp add: rm_cmd_def dangling_no_node)
  then have "dispatch (get_commands now) ''rm'' (name # rest) dangling =
     (dangling,
      print_line ''An error occurred executing 'rm': 'NoneType' object is not subscriptable'',
      Running)"
    by (simp add: dispatch_def get_commands_def sq_def)
  with rm home_removed_reaches show ?thesis
    by (simp add: print_line_def)
qed

text \<open>
  C7 fails in the state that the session \<open>home_removed\<close> reaches, for the same reason as C9:
  the current path names no node, \<^verbatim>\<open>_ls\<close> subscripts \<^verbatim>\<open>None\<close> whatever its
  arguments are, lists nothing, and the dispatcher reports the \<^verbatim>\<open>TypeError\<close>.
\<close>

theorem ls_without_current_directory:
  "snd (snd (run_loop home_removed (init ''user''))) = Running \<and>
   ls_cmd args (fst (run_loop home_removed (init ''user''))) =
     (fst (run_loop home_removed (init ''user'')), [], Raise TypeError) \<and>
   dispatch (get_commands now) ''ls'' args (fst (run_loop home_removed (init ''user''))) =
     (fst (run_loop home_removed (init ''user'')),
      print_line ''An error occurred executing 'ls': 'NoneType' object is not subscriptable'',
      Running)"
proof -
  have ls: "ls_cmd args dangling = (dangling, [], Raise TypeError)"
    by (simp add: ls_cmd_def dangling_no_node)
  then have "dispatch (get_commands now) ''ls'' args dangling =
     (dangling,
      print_line ''An error occurred executing 'ls': 'NoneType' object is not subscriptable'',
      Running)"
    by (simp add: dispatch_def get_commands_def sq_def)
  with ls home_removed_reaches show ?thesis by simp
qed

section \<open>What every command preserves\<close>

lemma unique_names_update:
  "unique_names (Dir children) \<Longrightarrow> unique_names item \<Longrightarrow>
     unique_names (Dir (AList.update name item children))"
proof -
  assume d: "unique_names (Dir children)" and i: "unique_names item"
  have "set (AList.update name item children) \<subseteq> insert (name, item) (set children)"
    by (induction children) auto
  with d i have "\<forall>entry \<in> set (AList.update name item children). unique_names (snd entry)"
    by (auto simp: unique_names.simps(2))
  moreover from d have "distinct (map fst (AList.update name item children))"
    by (simp add: distinct_update unique_names.simps(2))
  ultimately show ?thesis by (simp add: unique_names.simps(2))
qed

lemma unique_names_delete:
  "unique_names (Dir children) \<Longrightarrow> unique_names (Dir (AList.delete name children))"
proof -
  assume d: "unique_names (Dir children)"
  have "set (AList.delete name children) \<subseteq> set children"
    by (auto simp: AList.delete_eq)
  with d have "\<forall>entry \<in> set (AList.delete name children). unique_names (snd entry)"
    by (auto simp: unique_names.simps(2))
  moreover from d have "distinct (map fst (AList.delete name children))"
    by (simp add: distinct_delete unique_names.simps(2))
  ultimately show ?thesis by (simp add: unique_names.simps(2))
qed

lemma unique_names_child:
  "unique_names (Dir children) \<Longrightarrow> map_of children name = Some item \<Longrightarrow> unique_names item"
  by (auto simp: unique_names.simps(2) dest: map_of_SomeD)

lemma unique_names_modify_at:
  assumes "\<And>d. unique_names (Dir d) \<Longrightarrow> unique_names (Dir (f d))"
  shows "unique_names (Dir root) \<Longrightarrow> unique_names (Dir (modify_at path f root))"
proof (induction path arbitrary: root)
  case Nil
  from assms [OF Nil.prems] show ?case by simp
next
  case (Cons p ps)
  show ?case
  proof (cases "map_of root p")
    case None
    with Cons.prems show ?thesis by simp
  next
    case (Some item)
    show ?thesis
    proof (cases item)
      case (File content)
      with Some Cons.prems show ?thesis by simp
    next
      case (Dir c)
      with Some Cons.prems have "unique_names (Dir c)"
        using unique_names_child by blast
      then have "unique_names (Dir (modify_at ps f c))" by (rule Cons.IH)
      with Cons.prems have "unique_names (Dir (AList.update p (Dir (modify_at ps f c)) root))"
        by (rule unique_names_update)
      with Some Dir show ?thesis by simp
    qed
  qed
qed

lemma unique_names_get_node_from_path:
  "unique_names (Dir root) \<Longrightarrow> get_node_from_path root path = Some d \<Longrightarrow> unique_names (Dir d)"
proof (induction path arbitrary: root)
  case Nil
  then show ?case by simp
next
  case (Cons p ps)
  from Cons.prems(2) obtain c where c: "map_of root p = Some (Dir c)" and
    rest: "get_node_from_path c ps = Some d"
    by (auto split: option.splits node.splits)
  from Cons.prems(1) c have "unique_names (Dir c)" by (rule unique_names_child)
  from Cons.IH [OF this rest] show ?case .
qed

lemma unique_names_init: "unique_names (Dir (file_system (init usr)))"
  by (simp add: init_def unique_names.simps(2))

lemma unique_names_set_current_children:
  assumes "\<And>d. unique_names (Dir d) \<Longrightarrow> unique_names (Dir (f d))"
    and "unique_names (Dir (file_system s))"
  shows "unique_names (Dir (file_system (set_current_children f s)))"
  using unique_names_modify_at [of f "file_system s" "current_path s"] assms
  by (simp add: set_current_children_def)

lemma unique_names_handlers:
  assumes "unique_names (Dir (file_system s))"
  shows "unique_names (Dir (file_system (fst (help_cmd args s))))"
    and "unique_names (Dir (file_system (fst (ls_cmd args s))))"
    and "unique_names (Dir (file_system (fst (cd_cmd args s))))"
    and "unique_names (Dir (file_system (fst (mkdir_cmd args s))))"
    and "unique_names (Dir (file_system (fst (cat_cmd args s))))"
    and "unique_names (Dir (file_system (fst (echo_cmd args s))))"
    and "unique_names (Dir (file_system (fst (rm_cmd args s))))"
    and "unique_names (Dir (file_system (fst (pwd_cmd args s))))"
    and "unique_names (Dir (file_system (fst (date_cmd now args s))))"
    and "unique_names (Dir (file_system (fst (exit_cmd args s))))"
proof -
  show "unique_names (Dir (file_system (fst (help_cmd args s))))"
    using assms by (simp add: help_cmd_def)
  show "unique_names (Dir (file_system (fst (ls_cmd args s))))"
    using assms by (simp add: ls_cmd_def Let_def split: option.splits prod.splits outcome.splits)
  show "unique_names (Dir (file_system (fst (cd_cmd args s))))"
    using assms by (simp add: cd_cmd_def split: list.splits option.splits node.splits)
  have mk: "\<And>name d. unique_names (Dir d) \<Longrightarrow> unique_names (Dir (AList.update name (Dir []) d))"
    by (rule unique_names_update) (simp_all add: unique_names.simps(2))
  show "unique_names (Dir (file_system (fst (mkdir_cmd args s))))"
    using assms unique_names_set_current_children [OF mk assms]
    by (simp add: mkdir_cmd_def split: list.splits option.splits)
  show "unique_names (Dir (file_system (fst (cat_cmd args s))))"
    using assms by (simp add: cat_cmd_def split: list.splits option.splits node.splits)
  have wr: "\<And>name content d. unique_names (Dir d) \<Longrightarrow>
      unique_names (Dir (AList.update name (File content) d))"
    by (rule unique_names_update) (simp_all add: unique_names.simps(2))
  show "unique_names (Dir (file_system (fst (echo_cmd args s))))"
    using assms unique_names_set_current_children [OF wr assms]
    by (simp add: echo_cmd_def Let_def split: option.splits)
  show "unique_names (Dir (file_system (fst (rm_cmd args s))))"
    using assms unique_names_set_current_children [OF unique_names_delete assms]
    by (simp add: rm_cmd_def split: list.splits option.splits node.splits)
  show "unique_names (Dir (file_system (fst (pwd_cmd args s))))"
    using assms by (simp add: pwd_cmd_def)
  show "unique_names (Dir (file_system (fst (date_cmd now args s))))"
    using assms by (simp add: date_cmd_def)
  show "unique_names (Dir (file_system (fst (exit_cmd args s))))"
    using assms by (simp add: exit_cmd_def)
qed

lemma fst_dispatch:
  "commands command = Some h \<Longrightarrow> fst (dispatch commands command args s) = fst (h args s)"
  by (simp add: dispatch_def split: prod.splits outcome.splits)

lemma get_commands_cases:
  assumes "get_commands now command = Some h"
  shows "h = help_cmd \<or> h = ls_cmd \<or> (command = ''cd'' \<and> h = cd_cmd) \<or> h = mkdir_cmd \<or>
     h = cat_cmd \<or> h = echo_cmd \<or> h = rm_cmd \<or> h = pwd_cmd \<or> h = date_cmd now \<or> h = exit_cmd"
  using assms by (auto simp: get_commands_def split: if_splits)

text \<open>
  The names of a directory stay distinct through every command, so the association lists of the
  states that a session reaches stand for dicts.
\<close>

lemma unique_names_dispatch:
  assumes "unique_names (Dir (file_system s))"
  shows "unique_names (Dir (file_system (fst (dispatch (get_commands now) command args s))))"
proof (cases "get_commands now command")
  case None
  with assms show ?thesis by (simp add: dispatch_def)
next
  case (Some h)
  from get_commands_cases [OF Some] unique_names_handlers [OF assms]
  have "unique_names (Dir (file_system (fst (h args s))))" by auto
  with Some show ?thesis by (simp add: fst_dispatch)
qed

lemma current_names_distinct:
  "unique_names (Dir (file_system s)) \<Longrightarrow> get_current_node s = Some current_node \<Longrightarrow>
     distinct (map fst current_node)"
  using unique_names_get_node_from_path [of "file_system s" "current_path s" current_node]
  by (simp add: get_current_node_def unique_names.simps(2))

text \<open>
  Every command but \<^verbatim>\<open>cd\<close> without argument keeps the current path resolving: the
  mutations touch the children of the current directory only, \<^verbatim>\<open>cd <name>\<close> descends
  into an existing directory, \<^verbatim>\<open>cd ..\<close> goes to a prefix of a resolving path and
  \<^verbatim>\<open>cd /\<close> to the root.
\<close>

lemma get_node_from_path_butlast:
  assumes "get_node_from_path root path \<noteq> None"
  shows "get_node_from_path root (butlast path) \<noteq> None"
proof (cases "path = []")
  case True
  then show ?thesis by simp
next
  case False
  then have "path = butlast path @ [last path]" by simp
  then have "get_node_from_path root (butlast path @ [last path]) \<noteq> None"
    using assms by simp
  then show ?thesis
    by (auto simp: get_node_from_path_append split: option.splits)
qed

lemma cd_cmd_resolves:
  assumes "get_current_node s \<noteq> None" and "args \<noteq> []"
  shows "get_current_node (fst (cd_cmd args s)) \<noteq> None"
proof -
  from assms(2) obtain path rest where args: "args = path # rest" by (cases args) auto
  from assms(1) obtain current_node where node: "get_current_node s = Some current_node" by auto
  show ?thesis
  proof (cases "path = ''/''")
    case True
    with args show ?thesis by (simp add: cd_cmd_def get_current_node_def)
  next
    case not_root: False
    show ?thesis
    proof (cases "path = ''..''")
      case True
      with args not_root assms(1) show ?thesis
        using get_node_from_path_butlast [of "file_system s" "current_path s"]
        by (simp add: cd_cmd_def get_current_node_def)
    next
      case False
      show ?thesis
      proof (cases "\<exists>children. map_of current_node path = Some (Dir children)")
        case True
        then obtain children where "map_of current_node path = Some (Dir children)" by auto
        with args not_root False node show ?thesis
          by (simp add: cd_cmd_def get_current_node_def get_node_from_path_append)
      next
        case no_dir: False
        then have "map_of current_node path = None \<or>
            (\<exists>content. map_of current_node path = Some (File content))"
          by (cases "map_of current_node path"; cases "the (map_of current_node path)") auto
        with args not_root False node show ?thesis
          by (auto simp: cd_cmd_def)
      qed
    qed
  qed
qed

lemma set_current_children_resolves:
  "get_current_node s \<noteq> None \<Longrightarrow> get_current_node (set_current_children f s) \<noteq> None"
  by (auto simp: get_current_node_set_current_children)

lemma current_node_preserved:
  assumes "get_current_node s \<noteq> None" and "command = ''cd'' \<longrightarrow> args \<noteq> []"
  shows "get_current_node (fst (dispatch (get_commands now) command args s)) \<noteq> None"
proof (cases "get_commands now command")
  case None
  with assms(1) show ?thesis by (simp add: dispatch_def)
next
  case (Some h)
  have unchanged: "fst (help_cmd args s) = s" "fst (cat_cmd args s) = s" "fst (pwd_cmd args s) = s"
    "fst (date_cmd now args s) = s" "fst (exit_cmd args s) = s"
    by (simp_all add: help_cmd_def cat_cmd_def pwd_cmd_def date_cmd_def exit_cmd_def
        split: list.splits option.splits node.splits)
  have ls: "fst (ls_cmd args s) = s"
    by (simp add: ls_cmd_def Let_def split: option.splits prod.splits outcome.splits)
  have mkdir: "get_current_node (fst (mkdir_cmd args s)) \<noteq> None"
    using assms(1) set_current_children_resolves [OF assms(1)]
    by (auto simp: mkdir_cmd_def split: list.splits option.splits)
  have echo: "get_current_node (fst (echo_cmd args s)) \<noteq> None"
    using assms(1) set_current_children_resolves [OF assms(1)]
    by (auto simp: echo_cmd_def Let_def split: option.splits)
  have rm: "get_current_node (fst (rm_cmd args s)) \<noteq> None"
    using assms(1) set_current_children_resolves [OF assms(1)]
    by (auto simp: rm_cmd_def split: list.splits option.splits node.splits)
  have cd: "command = ''cd'' \<Longrightarrow> get_current_node (fst (cd_cmd args s)) \<noteq> None"
    using assms by (simp add: cd_cmd_resolves)
  from get_commands_cases [OF Some] unchanged ls mkdir echo rm cd assms(1)
  have "get_current_node (fst (h args s)) \<noteq> None" by auto
  with Some show ?thesis by (simp add: fst_dispatch)
qed

end
